theory Spec2Isabelle
  imports Complex_Main "HOL-Library.Word"
begin

unbundle bit_operations_syntax

section \<open>Numbers and strings of the dashboard code\<close>

text \<open>
  The dashboard is TypeScript. A JavaScript string is a sequence of UTF-16 code units
  (what \<open>charCodeAt\<close> reads), so it is modelled as a list of 16-bit words. The 32-bit
  integer operators (\<open>^\<close>, \<open>|\<close>, \<open>>>>\<close>, \<open>Math.imul\<close>) are modelled on \<open>32 word\<close>,
  where they are exact. Every other number is a JavaScript double; those are modelled
  by exact real arithmetic (type \<open>real\<close>): the rounding of IEEE doubles, \<open>NaN\<close>
  and the infinities are not part of the model, except where the code tests for
  \<open>Infinity\<close> itself.
\<close>

type_synonym jsstring = "16 word list"
type_synonym uint32 = "32 word"

subsection \<open>hashStringToInt\<close>

text \<open>
  \<^verbatim>\<open>
  let hash = 2166136261
  for (let i = 0; i < input.length; i++) {
    hash ^= input.charCodeAt(i)
    hash = Math.imul(hash, 16777619)
  }
  return hash >>> 0
  \<close>
\<close>

fun hashLoop :: "uint32 \<Rightarrow> jsstring \<Rightarrow> uint32" where
  "hashLoop hash [] = hash"
| "hashLoop hash (c # cs) = hashLoop ((hash XOR ucast c) * 16777619) cs"

definition hashStringToInt :: "jsstring \<Rightarrow> uint32" where
  "hashStringToInt input = hashLoop 2166136261 input"

subsection \<open>mulberry32\<close>

text \<open>
  The closure returned by \<open>mulberry32\<close> owns one mutable number \<open>t\<close>. It starts as
  \<open>seed >>> 0\<close> and every call adds \<open>0x6D2B79F5\<close> to it with the ordinary (not the
  32-bit) addition, so \<open>t\<close> is an integer that grows; the bitwise operators then read it
  modulo \<open>2^32\<close>. The model passes \<open>t\<close> explicitly: a call takes the state
  and returns the value drawn with the new state.
\<close>

type_synonym prng = int

definition mulberry32 :: "uint32 \<Rightarrow> prng" where
  "mulberry32 seed = uint seed"

definition prngOutput :: "uint32 \<Rightarrow> real" where
  "prngOutput w =
     (let r = (w XOR drop_bit 15 w) * (1 OR w);
          r = r XOR (r + (r XOR drop_bit 7 r) * (61 OR r))
      in of_int (uint (r XOR drop_bit 14 r)) / 4294967296)"

definition prngNext :: "prng \<Rightarrow> real \<times> prng" where
  "prngNext t = (let t = t + 0x6D2B79F5 in (prngOutput (word_of_int t), t))"


subsection \<open>Rounding\<close>

text \<open>
  \<open>Math.round\<close> rounds to the nearest integer, a tie towards plus infinity.
  \<open>Number(x.toFixed(2))\<close> rounds the magnitude of \<open>x\<close> to the nearest hundredth, a
  tie to the larger magnitude; from \<open>10^21\<close> on \<open>toFixed\<close> prints the number itself.
\<close>

definition Math_round :: "real \<Rightarrow> int" where
  "Math_round x = \<lfloor>x + 1 / 2\<rfloor>"

definition toFixed2 :: "real \<Rightarrow> real" where
  "toFixed2 x =
     (let a = \<bar>x\<bar>;
          m = (if a \<ge> 10 ^ 21 then a else of_int \<lfloor>a * 100 + 1 / 2\<rfloor> / 100)
      in if x < 0 then - m else m)"

subsection \<open>Strings\<close>

text \<open>An ASCII literal of the source as a JavaScript string.\<close>

definition ascii :: "string \<Rightarrow> jsstring" where
  "ascii s = map (\<lambda>c. of_nat (of_char c)) s"

text \<open>The template literal \<open>`${k}`\<close> of an integer: its decimal digits.\<close>

function decimalDigits :: "int \<Rightarrow> jsstring" where
  "decimalDigits n =
     (if n < 10 then [word_of_int (48 + n)]
      else decimalDigits (n div 10) @ [word_of_int (48 + n mod 10)])"
  by pat_completeness auto
termination
  by (relation "measure nat") auto

declare decimalDigits.simps [simp del]

definition intToString :: "int \<Rightarrow> jsstring" where
  "intToString k = (if k < 0 then ascii ''-'' @ decimalDigits (- k) else decimalDigits k)"

section \<open>Spend buckets and synthetic users\<close>

subsection \<open>parseBucket\<close>

text \<open>
  \<^verbatim>\<open>
  const match = label.match(/\$(\d+)[--](\d+)/)   // the class holds U+2013 and U+002D
  if (!match) return null
  return { min: Number(match[1]), max: Number(match[2]) }
  \<close>
  The pattern is not anchored: the engine tries every start position from the left.
  At a position it needs a dollar sign, a run of decimal digits, an en dash or a
  hyphen, and another run of digits. Both runs are greedy. Backtracking into the first
  run cannot help, since a shorter run is followed by a digit and not by a dash, and
  the second run has nothing after it, so both groups are the maximal runs.
\<close>

record bucketRange =
  range_min :: nat
  range_max :: nat

definition isDigit :: "16 word \<Rightarrow> bool" where
  "isDigit c = (48 \<le> c \<and> c \<le> 57)"

definition isDash :: "16 word \<Rightarrow> bool" where
  "isDash c = (c = 0x2013 \<or> c = 0x2D)"

text \<open>\<open>Number\<close> of a string of decimal digits.\<close>

definition digitsToNumber :: "jsstring \<Rightarrow> nat" where
  "digitsToNumber ds = foldl (\<lambda>acc c. acc * 10 + (unat c - 48)) 0 ds"

fun matchAt :: "jsstring \<Rightarrow> (jsstring \<times> jsstring) option" where
  "matchAt [] = None"
| "matchAt (c # rest) =
     (if c \<noteq> 0x24 then None
      else let g1 = takeWhile isDigit rest; rest1 = dropWhile isDigit rest in
        if g1 = [] then None
        else (case rest1 of
                [] \<Rightarrow> None
              | sep # rest2 \<Rightarrow>
                  if \<not> isDash sep then None
                  else let g2 = takeWhile isDigit rest2 in
                    if g2 = [] then None else Some (g1, g2)))"

fun labelMatch :: "jsstring \<Rightarrow> (jsstring \<times> jsstring) option" where
  "labelMatch [] = None"
| "labelMatch (c # cs) =
     (case matchAt (c # cs) of Some m \<Rightarrow> Some m | None \<Rightarrow> labelMatch cs)"

definition parseBucket :: "jsstring \<Rightarrow> bucketRange option" where
  "parseBucket label =
     (case labelMatch label of
        None \<Rightarrow> None
      | Some (g1, g2) \<Rightarrow>
          Some \<lparr>range_min = digitsToNumber g1, range_max = digitsToNumber g2\<rparr>)"

subsection \<open>generateUsersForBucket\<close>

text \<open>
  \<open>Math.random\<close> is the one effect of this function. It is modelled as a source of
  draws that the function consumes in order: a call returns the first draw and the
  source of the later ones.
\<close>

type_synonym randomSource = "nat \<Rightarrow> real"

definition Math_random :: "randomSource \<Rightarrow> real \<times> randomSource" where
  "Math_random src = (src 0, \<lambda>k. src (Suc k))"

record syntheticUser =
  email :: jsstring
  spend :: real

text \<open>
  \<^verbatim>\<open>
  for (let i = 0; i < toShow; i++) {
    const spend = Number((min + Math.random() * (max - min)).toFixed(2))
    const email = `user${Math.floor(Math.random() * 900000 + 100000)}@example.com`
    users.push({ email, spend })
  }
  \<close>
\<close>

function usersLoop ::
  "nat \<Rightarrow> real \<Rightarrow> real \<Rightarrow> real \<Rightarrow> syntheticUser list \<Rightarrow> randomSource \<Rightarrow> syntheticUser list \<times> randomSource"
where
  "usersLoop i toShow lo hi users src =
     (if of_nat i < toShow then
        let (u1, src1) = Math_random src;
            sp = toFixed2 (lo + u1 * (hi - lo));
            (u2, src2) = Math_random src1;
            em = ascii ''user'' @ intToString \<lfloor>u2 * 900000 + 100000\<rfloor> @ ascii ''@example.com''
        in usersLoop (Suc i) toShow lo hi (users @ [\<lparr>email = em, spend = sp\<rparr>]) src2
      else (users, src))"
  by pat_completeness auto
termination
proof (relation "measure (\<lambda>(i, toShow, lo, hi, users, src). nat \<lceil>toShow\<rceil> - i)")
  show "wf (measure (\<lambda>(i, toShow, lo, hi, users, src). nat \<lceil>toShow\<rceil> - i))" by simp
next
  fix i :: nat and toShow lo hi :: real and users :: "syntheticUser list" and src :: randomSource
    and x xa y xb xc ya xd
  assume "of_nat i < toShow"
  then have "int i < \<lceil>toShow\<rceil>" by (simp add: less_ceiling_iff)
  then have "nat \<lceil>toShow\<rceil> - Suc i < nat \<lceil>toShow\<rceil> - i" by linarith
  then show "((Suc i, toShow, lo, hi, users @ [\<lparr>email = xd, spend = xb\<rparr>], ya),
              (i, toShow, lo, hi, users, src))
             \<in> measure (\<lambda>(i, toShow, lo, hi, users, src). nat \<lceil>toShow\<rceil> - i)"
    by simp
qed

declare usersLoop.simps [simp del]

text \<open>The user that one round of the loop pushes, from the next two draws.\<close>

definition drawnUser :: "real \<Rightarrow> real \<Rightarrow> randomSource \<Rightarrow> syntheticUser" where
  "drawnUser lo hi src =
     \<lparr>email = ascii ''user'' @ intToString \<lfloor>src 1 * 900000 + 100000\<rfloor> @ ascii ''@example.com'',
      spend = toFixed2 (lo + src 0 * (hi - lo))\<rparr>"

text \<open>
  \<open>users.sort((a, b) => b.spend - a.spend)\<close>: the sort of an array is stable, so the
  result is the stable sort by descending spend.
\<close>

definition generateUsersForBucket ::
  "jsstring \<Rightarrow> real \<Rightarrow> randomSource \<Rightarrow> syntheticUser list \<times> randomSource" where
  "generateUsersForBucket label totalUsers src =
     (case parseBucket label of
        None \<Rightarrow> ([], src)
      | Some r \<Rightarrow>
          let toShow = min 50 (max 1 totalUsers);
              (users, src') = usersLoop 0 toShow (of_nat (range_min r)) (of_nat (range_max r)) [] src
          in (sort_key (\<lambda>u. - spend u) users, src'))"

section \<open>Per-user statistics\<close>

record modelShare =
  model :: string
  percent :: int

record userStats =
  agentRequests :: int
  linesGenerated :: int
  linesAccepted :: int
  tabCompletionsAccepted :: int
  modelUsage :: "modelShare list"

text \<open>
  \<^verbatim>\<open>
  const range = bucketLabel ? parseBucket(bucketLabel) : null
  const maxBench = range ? range.max : 1000
  const spendFactor = Math.min(1, Math.max(0.05, spend / Math.max(1, maxBench)))
  \<close>
  The label is \<open>string | null\<close>; the empty string is falsy as \<open>null\<close> is.
\<close>

definition spendFactorOf :: "real \<Rightarrow> jsstring option \<Rightarrow> real" where
  "spendFactorOf sp bucketLabel =
     (let range = (case bucketLabel of
                     None \<Rightarrow> None
                   | Some l \<Rightarrow> if l = [] then None else parseBucket l);
          maxBench = (case range of Some r \<Rightarrow> of_nat (range_max r) | None \<Rightarrow> 1000)
      in min 1 (max (5 / 100) (sp / max 1 maxBench)))"

text \<open>
  \<^verbatim>\<open>
  let idx = 0
  for (let i = 1; i < modelUsage.length; i++)
    if (modelUsage[i].percent > modelUsage[idx].percent) idx = i
  \<close>
\<close>

function largestShareLoop :: "modelShare list \<Rightarrow> nat \<Rightarrow> nat \<Rightarrow> nat" where
  "largestShareLoop mu i idx =
     (if i < length mu
      then largestShareLoop mu (Suc i) (if percent (mu ! i) > percent (mu ! idx) then i else idx)
      else idx)"
  by pat_completeness auto
termination
  by (relation "measure (\<lambda>(mu, i, idx). length mu - i)") auto

declare largestShareLoop.simps [simp del]

text \<open>
  \<^verbatim>\<open>
  const totalPct = modelUsage.reduce((s, m) => s + m.percent, 0)
  const diff = 100 - totalPct
  if (diff !== 0) {
    ... idx as above ...
    modelUsage[idx] = { ...modelUsage[idx], percent: modelUsage[idx].percent + diff }
  }
  \<close>
\<close>

definition correctDrift :: "modelShare list \<Rightarrow> modelShare list" where
  "correctDrift mu =
     (let totalPct = foldl (\<lambda>s m. s + percent m) 0 mu;
          diff = 100 - totalPct
      in if diff \<noteq> 0
         then let idx = largestShareLoop mu 1 0
              in mu[idx := (mu ! idx)\<lparr>percent := percent (mu ! idx) + diff\<rparr>]
         else mu)"

text \<open>
  \<open>generateUserStats\<close>. The generator is seeded with the hash of the e-mail address
  and drawn from eight times, in the order of the source.
\<close>

definition generateUserStats :: "jsstring \<Rightarrow> real \<Rightarrow> jsstring option \<Rightarrow> userStats" where
  "generateUserStats em sp bucketLabel =
     (let spendFactor = spendFactorOf sp bucketLabel;
          prng0 = mulberry32 (hashStringToInt em);
          agentRequestsBase = 100 + spendFactor * 4000;
          (p1, prng1) = prngNext prng0;
          agentRequestsV = max 1 (Math_round (agentRequestsBase * (8 / 10 + p1 * (4 / 10))));
          (p2, prng2) = prngNext prng1;
          linesGeneratedBase = of_int agentRequestsV * (8 + p2 * 12);
          linesGeneratedV = Math_round (linesGeneratedBase * (9 / 10 + spendFactor * (6 / 10)));
          (p3, prng3) = prngNext prng2;
          acceptanceRate = 45 / 100 + spendFactor * (4 / 10) + (p3 - 5 / 10) * (6 / 100);
          linesAcceptedV =
            min linesGeneratedV (max 0 (Math_round (of_int linesGeneratedV * acceptanceRate)));
          (p4, prng4) = prngNext prng3;
          tabCompletionsAcceptedV =
            max 0 (Math_round ((200 + spendFactor * 6000) * (7 / 10 + p4 * (6 / 10))));
          (p5, prng5) = prngNext prng4;
          wGpt5 = 1 + p5 * (6 / 10) + (1 - spendFactor) * (12 / 10);
          (p6, prng6) = prngNext prng5;
          wSonnet = 1 + p6 * (6 / 10) + spendFactor * (8 / 10);
          (p7, prng7) = prngNext prng6;
          wOpus = 1 + p7 * (6 / 10) + spendFactor * (28 / 10);
          (p8, prng8) = prngNext prng7;
          wAuto = 8 / 10 + p8 * (6 / 10) + (1 - spendFactor) * (6 / 10);
          sum = wGpt5 + wSonnet + wOpus + wAuto;
          toPct = (\<lambda>w. Math_round ((w / sum) * 100));
          modelUsage0 =
            [\<lparr>model = ''gpt-5'', percent = toPct wGpt5\<rparr>,
             \<lparr>model = ''claude-4-sonnet'', percent = toPct wSonnet\<rparr>,
             \<lparr>model = ''claude-4-opus'', percent = toPct wOpus\<rparr>,
             \<lparr>model = ''auto'', percent = toPct wAuto\<rparr>]
      in \<lparr>agentRequests = agentRequestsV,
          linesGenerated = linesGeneratedV,
          linesAccepted = linesAcceptedV,
          tabCompletionsAccepted = tabCompletionsAcceptedV,
          modelUsage = correctDrift modelUsage0\<rparr>)"

section \<open>Derived metrics of the usage page\<close>

subsection \<open>Dates\<close>


definition msPerDay :: int where
  "msPerDay = 24 * 60 * 60 * 1000"


definition Day :: "int \<Rightarrow> int" where
  "Day t = t div msPerDay"


definition DaysInYear :: "int \<Rightarrow> int" where
  "DaysInYear y =
     (if y mod 4 \<noteq> 0 then 365
      else if y mod 100 \<noteq> 0 then 366
      else if y mod 400 \<noteq> 0 then 365
      else 366)"

definition DayFromYear :: "int \<Rightarrow> int" where
  "DayFromYear y =
     365 * (y - 1970) + (y - 1969) div 4 - (y - 1901) div 100 + (y - 1601) div 400"

text \<open>
  \<open>YearFromTime t\<close> is the largest year that starts at or before \<open>t\<close>. It is
  computed by a search upwards from a year that is not too late: years have at most
  366 days after the epoch, and at least 365 before it.
\<close>

function yearSearch :: "int \<Rightarrow> int \<Rightarrow> int" where
  "yearSearch d y = (if DayFromYear (y + 1) \<le> d then yearSearch d (y + 1) else y)"
  by pat_completeness auto
termination
proof (relation "measure (\<lambda>(d, y). nat (d + 1 - DayFromYear (y + 1)))")
  show "wf (measure (\<lambda>(d, y). nat (d + 1 - DayFromYear (y + 1))))" by simp
next
  fix d y :: int
  assume le: "DayFromYear (y + 1) \<le> d"
  have "(y - 1968) div 4 \<le> (y - 1967) div 4"
    by (rule zdiv_mono1) simp_all
  moreover have "(y - 1899) div 100 \<le> (y - 1900 + 100) div 100"
    by (rule zdiv_mono1) simp_all
  then have "(y - 1899) div 100 \<le> (y - 1900) div 100 + 1"
    by simp
  moreover have "(y - 1600) div 400 \<le> (y - 1599) div 400"
    by (rule zdiv_mono1) simp_all
  ultimately have "DayFromYear (y + 1) < DayFromYear (y + 1 + 1)"
    by (simp add: DayFromYear_def)
  with le show "((d, y + 1), (d, y)) \<in> measure (\<lambda>(d, y). nat (d + 1 - DayFromYear (y + 1)))"
    by simp
qed

declare yearSearch.simps [simp del]

definition YearFromTime :: "int \<Rightarrow> int" where
  "YearFromTime t =
     (let d = Day t
      in yearSearch d (1970 + (if d \<ge> 0 then d div 366 else d div 365)))"












subsection \<open>Pool percentage and run-out\<close>








subsection \<open>True-up milestones\<close>






section \<open>Properties\<close>

subsection \<open>The generator\<close>

lemma unit_fraction_range:
  fixes x :: uint32
  shows "0 \<le> (of_int (uint x) :: real) / 4294967296 \<and> (of_int (uint x) :: real) / 4294967296 < 1"
proof -
  have lo: "0 \<le> uint x" by simp
  have "uint x < 4294967296"
    using unsigned_less [of x, where 'a = int] by simp
  then have hi: "(of_int (uint x) :: real) < of_int 4294967296"
    by (simp only: of_int_less_iff)
  from lo have "(0 :: real) \<le> of_int (uint x)"
    by (simp only: of_int_0_le_iff)
  with hi show ?thesis by simp
qed

lemma prngOutput_range: "0 \<le> prngOutput w \<and> prngOutput w < 1"
  unfolding prngOutput_def Let_def by (rule unit_fraction_range)

lemma prngNext_range: "0 \<le> fst (prngNext t) \<and> fst (prngNext t) < 1"
  using prngOutput_range by (simp add: prngNext_def Let_def)




subsection \<open>Pool percentage\<close>



subsection \<open>Run-out projection\<close>



subsection \<open>Bucket labels\<close>






subsection \<open>Synthetic users of a bucket\<close>

lemma usersLoop_step:
  "of_nat i < toShow \<Longrightarrow>
   usersLoop i toShow lo hi users src =
   usersLoop (Suc i) toShow lo hi (users @ [drawnUser lo hi src]) (\<lambda>k. src (Suc (Suc k)))"
  by (subst usersLoop.simps) (simp add: Let_def Math_random_def drawnUser_def)

lemma usersLoop_stop:
  "\<not> of_nat i < toShow \<Longrightarrow> usersLoop i toShow lo hi users src = (users, src)"
  by (subst usersLoop.simps) simp

lemma usersLoop_count:
  "length (fst (usersLoop i toShow lo hi users src)) = length users + (nat \<lceil>toShow\<rceil> - i)"
proof (induction "nat \<lceil>toShow\<rceil> - i" arbitrary: i users src)
  case 0
  then have "\<not> int i < \<lceil>toShow\<rceil>" by linarith
  then have "\<not> of_nat i < toShow" by (simp add: less_ceiling_iff)
  with 0 show ?case by (simp add: usersLoop_stop)
next
  case (Suc n)
  then have "int i < \<lceil>toShow\<rceil>" by linarith
  then have lt: "of_nat i < toShow" by (simp add: less_ceiling_iff)
  have "n = nat \<lceil>toShow\<rceil> - Suc i" using Suc.hyps(2) by linarith
  from Suc.hyps(1) [OF this] Suc.hyps(2) show ?case
    by (simp add: usersLoop_step [OF lt])
qed





lemma generateUsersForBucket_Some:
  assumes "parseBucket label = Some r"
  shows "fst (generateUsersForBucket label totalUsers src) =
         sort_key (\<lambda>u. - spend u)
           (fst (usersLoop 0 (min 50 (max 1 totalUsers)) (of_nat (range_min r)) (of_nat (range_max r)) [] src))"
  using assms by (simp add: generateUsersForBucket_def Let_def split_beta)

text \<open>
  Claim C10. For a label with a range and an integer user count \<open>n\<close>, zero and
  negative counts included, the drill-down returns exactly \<open>min(50, max(1, n))\<close>
  users, so at least one.
\<close>

theorem generateUsersForBucket_count:
  assumes "parseBucket label = Some r"
  shows "length (fst (generateUsersForBucket label (of_int n) src)) = nat (min 50 (max 1 n)) \<and>
         1 \<le> length (fst (generateUsersForBucket label (of_int n) src))"
proof -
  have "min 50 (max 1 (of_int n :: real)) = of_int (min 50 (max 1 n))" by simp
  then have "\<lceil>min 50 (max 1 (of_int n :: real))\<rceil> = min 50 (max 1 n)"
    by (simp only: ceiling_of_int)
  then have "length (fst (generateUsersForBucket label (of_int n) src)) = nat (min 50 (max 1 n))"
    by (simp add: generateUsersForBucket_Some [OF assms] usersLoop_count)
  then show ?thesis by simp
qed

theorem generateUsersForBucket_count_witness:
  "length (fst (generateUsersForBucket (ascii ''$20-40'') 0 (\<lambda>k. 1 / 2))) = 1 \<and>
   length (fst (generateUsersForBucket (ascii ''$20-40'') (- 3) (\<lambda>k. 1 / 2))) = 1 \<and>
   length (fst (generateUsersForBucket (ascii ''$20-40'') 7 (\<lambda>k. 1 / 2))) = 7 \<and>
   length (fst (generateUsersForBucket (ascii ''$20-40'') 450 (\<lambda>k. 1 / 2))) = 50"
proof -
  have p: "parseBucket (ascii ''$20-40'') = Some \<lparr>range_min = 20, range_max = 40\<rparr>"
    by (simp add: parseBucket_def ascii_def isDigit_def isDash_def digitsToNumber_def)
  show ?thesis
    using generateUsersForBucket_count [OF p, of 0 "\<lambda>k. 1 / 2"]
          generateUsersForBucket_count [OF p, of "- 3" "\<lambda>k. 1 / 2"]
          generateUsersForBucket_count [OF p, of 7 "\<lambda>k. 1 / 2"]
          generateUsersForBucket_count [OF p, of 450 "\<lambda>k. 1 / 2"]
    by simp
qed




subsection \<open>Per-user statistics\<close>

lemma foldl_percent:
  "foldl (\<lambda>s m. s + percent m) a mu = a + sum_list (map percent mu)"
  by (induction mu arbitrary: a) simp_all

lemma largestShareLoop_bound:
  "idx < length mu \<Longrightarrow> largestShareLoop mu i idx < length mu"
proof (induction mu i idx rule: largestShareLoop.induct)
  case (1 mu i idx)
  show ?case
  proof (cases "i < length mu")
    case True
    with "1.prems" have "(if percent (mu ! i) > percent (mu ! idx) then i else idx) < length mu"
      by simp
    from "1.IH" [OF True this] True show ?thesis
      by (subst largestShareLoop.simps) simp
  next
    case False
    with "1.prems" show ?thesis by (subst largestShareLoop.simps) simp
  qed
qed

lemma percent_update_sum:
  "k < length mu \<Longrightarrow>
   sum_list (map percent (mu[k := (mu ! k)\<lparr>percent := percent (mu ! k) + d\<rparr>])) =
   sum_list (map percent mu) + d"
proof (induction mu arbitrary: k)
  case Nil
  then show ?case by simp
next
  case (Cons m mu)
  then show ?case by (cases k) simp_all
qed

lemma percent_update_models:
  "map model (mu[k := (mu ! k)\<lparr>percent := p\<rparr>]) = map model mu"
proof (induction mu arbitrary: k)
  case Nil
  then show ?case by simp
next
  case (Cons m mu)
  then show ?case by (cases k) simp_all
qed

lemma correctDrift_sum:
  assumes "mu \<noteq> []"
  shows "sum_list (map percent (correctDrift mu)) = 100"
proof -
  have "largestShareLoop mu 1 0 < length mu"
    using assms by (intro largestShareLoop_bound) simp
  then show ?thesis
    by (simp add: correctDrift_def Let_def foldl_percent percent_update_sum)
qed

lemma correctDrift_shape:
  "length (correctDrift mu) = length mu \<and> map model (correctDrift mu) = map model mu"
  by (simp add: correctDrift_def Let_def percent_update_models)


text \<open>
  Claim C1. For every e-mail address, spend and bucket label (a missing label, and a
  label that does not parse, included) the model usage list has exactly four entries,
  one per model in the fixed order, and their integer percentages sum to exactly 100.
\<close>

theorem modelUsage_four_entries_sum_100:
  "length (modelUsage (generateUserStats em sp bucketLabel)) = 4 \<and>
   map model (modelUsage (generateUserStats em sp bucketLabel)) =
     [''gpt-5'', ''claude-4-sonnet'', ''claude-4-opus'', ''auto''] \<and>
   sum_list (map percent (modelUsage (generateUserStats em sp bucketLabel))) = 100"
  by (simp add: generateUserStats_def Let_def split_beta correctDrift_sum correctDrift_shape)

text \<open>
  The statistics of the address \<open>amy\<close>, evaluated draw by draw. The four percentages
  round to 34, 22, 19 and 26, which sum to 101, and the correction lowers the largest.
\<close>

lemma hash_amy: "hashStringToInt (ascii ''amy'') = 606577950"
  by (simp add: hashStringToInt_def ascii_def)

lemma draws_amy:
  "prngNext 606577950 = (3429332384 / 4294967296, 2438143763)"
  "prngNext 2438143763 = (3748029404 / 4294967296, 4269709576)"
  "prngNext 4269709576 = (2778903159 / 4294967296, 6101275389)"
  "prngNext 6101275389 = (1845543736 / 4294967296, 7932841202)"
  "prngNext 7932841202 = (2540856382 / 4294967296, 9764407015)"
  "prngNext 9764407015 = (3993202611 / 4294967296, 11595972828)"
  "prngNext 11595972828 = (1837744488 / 4294967296, 13427538641)"
  "prngNext 13427538641 = (3770102494 / 4294967296, 15259104454)"
  by (simp_all add: prngNext_def prngOutput_def Let_def)

lemma spendFactor_unlabelled: "spendFactorOf (3143 / 100) None = 5 / 100"
  by (simp add: spendFactorOf_def)

lemma correctDrift_amy:
  "correctDrift
     [\<lparr>model = ''gpt-5'', percent = 34\<rparr>, \<lparr>model = ''claude-4-sonnet'', percent = 22\<rparr>,
      \<lparr>model = ''claude-4-opus'', percent = 19\<rparr>, \<lparr>model = ''auto'', percent = 26\<rparr>] =
     [\<lparr>model = ''gpt-5'', percent = 33\<rparr>, \<lparr>model = ''claude-4-sonnet'', percent = 22\<rparr>,
      \<lparr>model = ''claude-4-opus'', percent = 19\<rparr>, \<lparr>model = ''auto'', percent = 26\<rparr>]"
  by code_simp

lemma stats_amy:
  "generateUserStats (ascii ''amy'') (3143 / 100) None =
     \<lparr>agentRequests = 336, linesGenerated = 5772, linesAccepted = 2764,
      tabCompletionsAccepted = 479,
      modelUsage =
        [\<lparr>model = ''gpt-5'', percent = 33\<rparr>, \<lparr>model = ''claude-4-sonnet'', percent = 22\<rparr>,
         \<lparr>model = ''claude-4-opus'', percent = 19\<rparr>, \<lparr>model = ''auto'', percent = 26\<rparr>]\<rparr>"
proof -
  have u: "uint (606577950 :: 32 word) = 606577950" by simp
  show ?thesis
    apply (simp only: generateUserStats_def spendFactor_unlabelled hash_amy mulberry32_def u)
    apply (simp only: Let_def split_beta)
    apply (simp only: draws_amy fst_conv snd_conv)
    apply (simp add: Math_round_def correctDrift_amy)
    done
qed

theorem modelUsage_four_entries_sum_100_witness:
  "map percent (modelUsage (generateUserStats (ascii ''amy'') (3143 / 100) None)) = [33, 22, 19, 26] \<and>
   length (modelUsage (generateUserStats (ascii ''amy'') (3143 / 100) None)) = 4 \<and>
   sum_list (map percent (modelUsage (generateUserStats (ascii ''amy'') (3143 / 100) None))) = 100"
  using modelUsage_four_entries_sum_100 [of "ascii ''amy''" "3143 / 100" None]
  by (simp add: stats_amy)



lemma Math_round_nonneg: "0 \<le> x \<Longrightarrow> 0 \<le> Math_round x"
  by (simp add: Math_round_def)

lemma spendFactorOf_range: "5 / 100 \<le> spendFactorOf sp bucketLabel \<and> spendFactorOf sp bucketLabel \<le> 1"
  by (simp add: spendFactorOf_def Let_def)

text \<open>
  Claim C7. For every e-mail address, spend and bucket label the accepted lines are at
  most the generated lines, and neither count is negative.
\<close>

theorem lines_accepted_within_generated:
  "linesAccepted (generateUserStats em sp bucketLabel) \<le> linesGenerated (generateUserStats em sp bucketLabel) \<and>
   0 \<le> linesAccepted (generateUserStats em sp bucketLabel) \<and>
   0 \<le> linesGenerated (generateUserStats em sp bucketLabel)"
proof -
  define sf where "sf = spendFactorOf sp bucketLabel"
  define g0 where "g0 = mulberry32 (hashStringToInt em)"
  define p1 where "p1 = fst (prngNext g0)"
  define p2 where "p2 = fst (prngNext (snd (prngNext g0)))"
  define p3 where "p3 = fst (prngNext (snd (prngNext (snd (prngNext g0)))))"
  define ar where "ar = max 1 (Math_round ((100 + sf * 4000) * (8 / 10 + p1 * (4 / 10))))"
  define lg where "lg = Math_round (of_int ar * (8 + p2 * 12) * (9 / 10 + sf * (6 / 10)))"
  define la where "la = min lg (max 0 (Math_round (of_int lg * (45 / 100 + sf * (4 / 10) + (p3 - 5 / 10) * (6 / 100)))))"
  have gen: "linesGenerated (generateUserStats em sp bucketLabel) = lg"
    by (simp add: generateUserStats_def Let_def split_beta lg_def ar_def p1_def p2_def g0_def sf_def)
  have acc: "linesAccepted (generateUserStats em sp bucketLabel) = la"
    by (simp add: generateUserStats_def Let_def split_beta la_def lg_def ar_def p1_def p2_def p3_def g0_def sf_def)
  have sf0: "0 \<le> sf" using spendFactorOf_range [of sp bucketLabel] by (simp add: sf_def)
  have p20: "0 \<le> p2" unfolding p2_def using prngNext_range by blast
  have ar1: "1 \<le> ar" by (simp add: ar_def)
  then have "(0::real) \<le> of_int ar" by simp
  moreover have "0 \<le> 8 + p2 * 12" using p20 by simp
  moreover have "0 \<le> 9 / 10 + sf * (6 / 10)" using sf0 by simp
  ultimately have "0 \<le> of_int ar * (8 + p2 * 12) * (9 / 10 + sf * (6 / 10))"
    by (intro mult_nonneg_nonneg)
  then have lg0: "0 \<le> lg" unfolding lg_def by (rule Math_round_nonneg)
  have "la \<le> lg" by (simp add: la_def)
  moreover have "0 \<le> la" using lg0 by (simp add: la_def)
  ultimately show ?thesis using lg0 by (simp add: gen acc)
qed

theorem lines_accepted_within_generated_witness:
  "linesGenerated (generateUserStats (ascii ''amy'') (3143 / 100) None) = 5772 \<and>
   linesAccepted (generateUserStats (ascii ''amy'') (3143 / 100) None) = 2764 \<and>
   linesAccepted (generateUserStats (ascii ''amy'') (3143 / 100) None)
     \<le> linesGenerated (generateUserStats (ascii ''amy'') (3143 / 100) None)"
  using lines_accepted_within_generated [of "ascii ''amy''" "3143 / 100" None]
  by (simp add: stats_amy)

subsection \<open>True-up milestones\<close>

lemma div_step:
  fixes z n :: int
  assumes "0 < n"
  shows "(z + 1) div n = z div n + (if (z + 1) mod n = 0 then 1 else 0)"
proof (cases "z mod n = n - 1")
  case True
  have "n * (z div n) + z mod n = z" by (rule mult_div_mod_eq)
  with True have "z + 1 = n * (z div n) + n" by linarith
  then have "z + 1 = n * (z div n + 1) + 0" by (simp add: algebra_simps)
  then have "(z + 1) div n = z div n + 1" and "(z + 1) mod n = 0"
    using assms
    by (metis add.right_neutral nonzero_mult_div_cancel_left less_irrefl,
        metis add.right_neutral mod_mult_self1_is_0)
  then show ?thesis by simp
next
  case False
  have "0 \<le> z mod n" "z mod n < n" using assms by simp_all
  with False have r: "0 \<le> z mod n + 1" "z mod n + 1 < n" by linarith+
  have "z + 1 = n * (z div n) + (z mod n + 1)"
    using mult_div_mod_eq [of n z] by simp
  then have "(z + 1) div n = z div n" and "(z + 1) mod n = z mod n + 1"
    using r by (metis int_div_pos_eq, metis int_mod_pos_eq)
  then show ?thesis using \<open>0 \<le> z mod n\<close> by simp
qed

lemma leap_step:
  fixes y :: int
  shows "(y - 1968) div 4 = (y - 1969) div 4 + (if y mod 4 = 0 then 1 else 0)"
    and "(y - 1900) div 100 = (y - 1901) div 100 + (if y mod 100 = 0 then 1 else 0)"
    and "(y - 1600) div 400 = (y - 1601) div 400 + (if y mod 400 = 0 then 1 else 0)"
proof -
  have m4: "(y - 1968) mod 4 = y mod 4"
    using mod_mult_self1 [of y "- 492" 4] by simp
  have m100: "(y - 1900) mod 100 = y mod 100"
    using mod_mult_self1 [of y "- 19" 100] by simp
  have m400: "(y - 1600) mod 400 = y mod 400"
    using mod_mult_self1 [of y "- 4" 400] by simp
  show "(y - 1968) div 4 = (y - 1969) div 4 + (if y mod 4 = 0 then 1 else 0)"
    using div_step [of 4 "y - 1969"] m4 by simp
  show "(y - 1900) div 100 = (y - 1901) div 100 + (if y mod 100 = 0 then 1 else 0)"
    using div_step [of 100 "y - 1901"] m100 by simp
  show "(y - 1600) div 400 = (y - 1601) div 400 + (if y mod 400 = 0 then 1 else 0)"
    using div_step [of 400 "y - 1601"] m400 by simp
qed

lemma century_is_fourth: "(y::int) mod 100 = 0 \<Longrightarrow> y mod 4 = 0"
proof -
  assume "y mod 100 = 0"
  then have "100 dvd y" by (simp only: dvd_eq_mod_eq_0)
  moreover have "(4::int) dvd 100" by simp
  ultimately have "4 dvd y" by (rule dvd_trans [rotated])
  then show "y mod 4 = 0" by (simp only: dvd_eq_mod_eq_0)
qed

lemma fourth_century_is_century: "(y::int) mod 400 = 0 \<Longrightarrow> y mod 100 = 0"
proof -
  assume "y mod 400 = 0"
  then have "400 dvd y" by (simp only: dvd_eq_mod_eq_0)
  moreover have "(100::int) dvd 400" by simp
  ultimately have "100 dvd y" by (rule dvd_trans [rotated])
  then show "y mod 100 = 0" by (simp only: dvd_eq_mod_eq_0)
qed

lemma DayFromYear_Suc: "DayFromYear (y + 1) = DayFromYear y + DaysInYear y"
proof -
  have "DayFromYear (y + 1) =
        365 * (y - 1969) + (y - 1968) div 4 - (y - 1900) div 100 + (y - 1600) div 400"
    by (simp add: DayFromYear_def)
  also have "\<dots> = DayFromYear y + DaysInYear y"
    unfolding leap_step DaysInYear_def DayFromYear_def
    using century_is_fourth [of y] fourth_century_is_century [of y] by auto
  finally show ?thesis .
qed










text \<open>
  The search meets the specification of \<open>YearFromTime\<close>: the year found starts at
  or before the day of \<open>t\<close>, and the next year starts after it.
\<close>

lemma yearSearch_spec:
  "DayFromYear y \<le> d \<Longrightarrow>
   DayFromYear (yearSearch d y) \<le> d \<and> d < DayFromYear (yearSearch d y + 1)"
proof (induction d y rule: yearSearch.induct)
  case (1 d y)
  show ?case
  proof (cases "DayFromYear (y + 1) \<le> d")
    case True
    from "1.IH" [OF True True] True show ?thesis
      by (subst (1 2) yearSearch.simps) simp
  next
    case False
    with "1.prems" show ?thesis
      by (subst (1 2) yearSearch.simps) simp
  qed
qed

lemma DayFromYear_after_epoch: "DayFromYear (1970 + int k) \<le> 366 * int k"
proof (induction k)
  case 0
  show ?case by (simp add: DayFromYear_def)
next
  case (Suc k)
  have "DayFromYear (1970 + int k + 1) = DayFromYear (1970 + int k) + DaysInYear (1970 + int k)"
    by (rule DayFromYear_Suc)
  moreover have "DaysInYear (1970 + int k) \<le> 366" by (simp add: DaysInYear_def)
  ultimately show ?case using Suc by (simp add: add.assoc)
qed

lemma DayFromYear_before_epoch: "DayFromYear (1970 - int k) \<le> - 365 * int k"
proof (induction k)
  case 0
  show ?case by (simp add: DayFromYear_def)
next
  case (Suc k)
  have "DayFromYear (1970 - int (Suc k) + 1) =
        DayFromYear (1970 - int (Suc k)) + DaysInYear (1970 - int (Suc k))"
    by (rule DayFromYear_Suc)
  moreover have "1970 - int (Suc k) + 1 = 1970 - int k" by simp
  moreover have "365 \<le> DaysInYear (1970 - int (Suc k))" by (simp add: DaysInYear_def)
  ultimately show ?case using Suc by simp
qed

lemma YearFromTime_spec:
  "DayFromYear (YearFromTime t) \<le> Day t \<and> Day t < DayFromYear (YearFromTime t + 1)"
proof -
  define d where "d = Day t"
  define y0 where "y0 = 1970 + (if d \<ge> 0 then d div 366 else d div 365)"
  have start: "DayFromYear y0 \<le> d"
  proof (cases "d \<ge> 0")
    case True
    then have "0 \<le> d div 366" by simp
    then have "y0 = 1970 + int (nat (d div 366))" using True by (simp add: y0_def)
    then have "DayFromYear y0 \<le> 366 * (d div 366)"
      using DayFromYear_after_epoch [of "nat (d div 366)"] \<open>0 \<le> d div 366\<close> by simp
    also have "\<dots> \<le> d" by simp
    finally show ?thesis .
  next
    case False
    then have "d div 365 < 0" by (intro div_neg_pos_less0) simp_all
    then have neg: "d div 365 \<le> 0" by simp
    then have "y0 = 1970 - int (nat (- (d div 365)))" using False by (simp add: y0_def)
    then have "DayFromYear y0 \<le> 365 * (d div 365)"
      using DayFromYear_before_epoch [of "nat (- (d div 365))"] neg by simp
    also have "\<dots> \<le> d" by simp
    finally show ?thesis .
  qed
  have "YearFromTime t = yearSearch d y0"
    by (simp add: YearFromTime_def Let_def d_def y0_def)
  with yearSearch_spec [OF start] show ?thesis by (simp add: d_def)
qed




end
